theory Spec2Isabelle
  imports Main
begin

section \<open>Insert destinations (storage/InsertDestination.hpp)\<close>

text \<open>
  A shallow embedding of the member functions that \<^verbatim>\<open>storage/InsertDestination.hpp\<close>
  defines inline. One call of a member function is a HOL function from the object's
  state (a record) and the arguments to the outcome: a \<open>failure\<close> when the C++ does not
  return, the updated state and the outputs when it does.

  The model describes one thread at a time. A \<^verbatim>\<open>SpinMutexLock\<close> taken at the
  beginning of a member function and released at its end has no effect on what that
  call computes, so the mutexes do not appear.
\<close>

subsection \<open>Identifiers and failures\<close>

text \<open>
  The typedefs \<^verbatim>\<open>block_id\<close>, \<^verbatim>\<open>partition_id\<close>, \<^verbatim>\<open>relation_id\<close>,
  \<^verbatim>\<open>attribute_id\<close>, \<^verbatim>\<open>tuple_id\<close>, \<^verbatim>\<open>tmb::client_id\<close> and
  \<^verbatim>\<open>tmb::message_type_id\<close> are declared in other headers. The functions below copy
  and compare these values; the only arithmetic is \<^verbatim>\<open>++part_id\<close> and \<^verbatim>\<open>++i\<close> below
  a bound of the same type, which cannot wrap. They are natural numbers here.
\<close>

type_synonym block_id = nat
type_synonym partition_id = nat
type_synonym relation_id = nat
type_synonym attribute_id = nat
type_synonym tuple_id = nat
type_synonym client_id = nat
type_synonym message_type_id = nat
type_synonym thread_id = nat

text \<open>
  How a call can end without returning: \<^verbatim>\<open>LOG(FATAL)\<close> with its message, a failed
  \<^verbatim>\<open>CHECK\<close> or \<^verbatim>\<open>DCHECK\<close> with the checked condition, and \<^verbatim>\<open>operator[]\<close> of a
  \<^verbatim>\<open>std::vector\<close> applied outside the vector (undefined behaviour in C++), with the
  name of the vector.
\<close>

datatype failure =
    LOG_FATAL string
  | CHECK_failed string
  | DCHECK_failed string
  | out_of_range string

subsection \<open>The collaborators of the base class\<close>

text \<open>\<^verbatim>\<open>CatalogRelationSchema\<close>: only \<^verbatim>\<open>getID()\<close> is used.\<close>

record CatalogRelationSchema =
  id' :: relation_id

definition getID :: "CatalogRelationSchema \<Rightarrow> relation_id" where
  "getID relation = id' relation"

text \<open>
  \<^verbatim>\<open>serialization::DataPipelineMessage\<close>, the protocol buffer that
  \<^verbatim>\<open>sendBlockFilledMessage\<close> fills: one field for each setter it calls.
\<close>

record DataPipelineMessage =
  operator_index :: nat
  block_id :: block_id
  relation_id :: relation_id
  query_id :: nat
  partition_id :: partition_id

text \<open>\<^verbatim>\<open>tmb::TaggedMessage\<close>: the bytes of the payload and the message type.\<close>

record TaggedMessage =
  message_bytes :: "nat list"
  message_type :: message_type_id

text \<open>
  \<^verbatim>\<open>tmb::MessageBus::SendStatus\<close>. The code names only \<^verbatim>\<open>kOK\<close>; every other
  enumerator is \<open>kNotOK\<close> with its number.
\<close>

datatype SendStatus = kOK | kNotOK nat

text \<open>
  \<^verbatim>\<open>tmb::MessageBus\<close> as seen through \<^verbatim>\<open>QueryExecutionUtil::SendTMBMessage\<close>
  (sender, receiver, message): \<open>Send\<close> is the status the bus answers, and
  \<open>sent\<close> is the sequence of the sends it was asked for, the oldest first.
\<close>

record MessageBus =
  Send :: "client_id \<Rightarrow> client_id \<Rightarrow> TaggedMessage \<Rightarrow> SendStatus"
  sent :: "(client_id \<times> client_id \<times> TaggedMessage) list"

definition SendTMBMessage ::
  "MessageBus \<Rightarrow> client_id \<Rightarrow> client_id \<Rightarrow> TaggedMessage \<Rightarrow> SendStatus \<times> MessageBus" where
  "SendTMBMessage bus sender_id receiver_id tagged_message =
     (Send bus sender_id receiver_id tagged_message,
      bus\<lparr>sent := sent bus @ [(sender_id, receiver_id, tagged_message)]\<rparr>)"

text \<open>
  What the process provides around a call: the thread that executes it
  (\<^verbatim>\<open>ClientIDMap::getValue()\<close> takes no argument and looks the calling thread up), the
  serializer of the protocol buffer library (\<open>None\<close> when \<^verbatim>\<open>SerializeToArray\<close> returns
  false), and the constant \<^verbatim>\<open>kDataPipelineMessage\<close> of
  \<^verbatim>\<open>QueryExecutionTypedefs.hpp\<close>.
\<close>

record Process =
  this_thread :: thread_id
  SerializeToArray :: "DataPipelineMessage \<Rightarrow> nat list option"
  kDataPipelineMessage :: message_type_id

subsection \<open>class InsertDestination\<close>

datatype InsertDestinationType =
    kAlwaysCreateBlockInsertDestination
  | kBlockPoolInsertDestination
  | kPartitionAwareInsertDestination

text \<open>
  The data members that the inline functions read; a member \<^verbatim>\<open>name_\<close> of the
  class is the field \<open>name'\<close> of the record. \<open>thread_id_map'\<close> is the reference
  to the process-wide \<^verbatim>\<open>ClientIDMap\<close>, as the function from a thread to its client id
  (every thread that calls is taken to be registered; \<^verbatim>\<open>ThreadIDBasedMap.hpp\<close> is not
  among the sources).
  \<open>bus'\<close> is the bus behind the pointer, \<open>None\<close> for a null pointer.
\<close>

record InsertDestination =
  insert_dest_type' :: InsertDestinationType
  thread_id_map' :: "thread_id \<Rightarrow> client_id"
  relation' :: CatalogRelationSchema
  relational_op_index' :: nat
  query_id' :: nat
  scheduler_client_id' :: client_id
  bus' :: "MessageBus option"

definition getValue :: "(thread_id \<Rightarrow> client_id) \<Rightarrow> Process \<Rightarrow> client_id" where
  "getValue thread_id_map p = thread_id_map (this_thread p)"

text \<open>The protocol buffer after the five setters of \<^verbatim>\<open>sendBlockFilledMessage\<close>.\<close>

definition block_filled_proto ::
  "'a InsertDestination_scheme \<Rightarrow> block_id \<Rightarrow> partition_id \<Rightarrow> DataPipelineMessage" where
  "block_filled_proto d bid part_id =
     \<lparr>operator_index = relational_op_index' d,
      block_id = bid,
      relation_id = getID (relation' d),
      query_id = query_id' d,
      partition_id = part_id\<rparr>"

text \<open>
  \<^verbatim>\<open>InsertDestination::sendBlockFilledMessage(id, part_id)\<close>. The function returns
  nothing; the result is the failure, if any, and the destination with its bus after
  the call. A bus that was asked to send keeps the request in \<open>sent\<close> also when the
  \<^verbatim>\<open>CHECK\<close> on the status then fails. The steps are in the order of the source:
  serialize (\<^verbatim>\<open>CHECK\<close>), build the tagged message, \<^verbatim>\<open>DCHECK(bus_ != nullptr)\<close>,
  send, \<^verbatim>\<open>CHECK\<close> the status. A null \<open>bus'\<close> is the failed \<^verbatim>\<open>DCHECK\<close>; a build
  without \<^verbatim>\<open>DCHECK\<close>s would go on to use the null pointer. The buffer from
  \<^verbatim>\<open>std::malloc\<close> is assumed to exist.
\<close>

definition sendBlockFilledMessage ::
  "Process \<Rightarrow> 'a InsertDestination_scheme \<Rightarrow> block_id \<Rightarrow> partition_id
     \<Rightarrow> failure option \<times> 'a InsertDestination_scheme" where
  "sendBlockFilledMessage p d bid part_id =
     (let proto = block_filled_proto d bid part_id in
      case SerializeToArray p proto of
        None \<Rightarrow> (Some (CHECK_failed ''proto.SerializeToArray(proto_bytes, proto_length)''), d)
      | Some proto_bytes \<Rightarrow>
          let tagged_message =
                \<lparr>message_bytes = proto_bytes, message_type = kDataPipelineMessage p\<rparr> in
          (case bus' d of
             None \<Rightarrow> (Some (DCHECK_failed ''bus_ != nullptr''), d)
           | Some bus \<Rightarrow>
               let (send_status, bus_after) =
                     SendTMBMessage bus (getValue (thread_id_map' d) p)
                       (scheduler_client_id' d) tagged_message
               in (if send_status = kOK then None
                   else Some (CHECK_failed ''send_status == tmb::MessageBus::SendStatus::kOK''),
                   d\<lparr>bus' := Some bus_after\<rparr>)))"

subsection \<open>class AlwaysCreateBlockInsertDestination\<close>

text \<open>\<^verbatim>\<open>MutableBlockReference\<close>: the handle of a loaded block, named by the block's id.\<close>

datatype MutableBlockReference = MutableBlockReference block_id

record AlwaysCreateBlockInsertDestination = InsertDestination +
  returned_block_ids' :: "block_id list"

text \<open>
  The argument of \<^verbatim>\<open>bulkInsertTuplesFromValueAccessors\<close> is a vector of pairs of an
  accessor and an attribute map; no override in this header reads it, so the type
  \<open>'acc\<close> of the accessors stays open. The override does not return, so its result
  has any type \<open>'r\<close>.
\<close>

definition AlwaysCreate_bulkInsertTuplesFromValueAccessors ::
  "AlwaysCreateBlockInsertDestination \<Rightarrow> ('acc \<times> attribute_id list) list \<Rightarrow> bool
     \<Rightarrow> failure + 'r" where
  "AlwaysCreate_bulkInsertTuplesFromValueAccessors d accessor_attribute_map always_mark_full =
     Inl (LOG_FATAL
       ''bulkInsertTuplesFromValueAccessors is not implemented for AlwaysCreateBlockInsertDestination'')"

text \<open>
  \<^verbatim>\<open>getPartiallyFilledBlocks(partial_blocks, part_ids)\<close>: the two output vectors come
  in and go out; the body is empty.
\<close>

definition AlwaysCreate_getPartiallyFilledBlocks ::
  "AlwaysCreateBlockInsertDestination \<Rightarrow> MutableBlockReference list \<Rightarrow> partition_id list
     \<Rightarrow> AlwaysCreateBlockInsertDestination \<times> MutableBlockReference list \<times> partition_id list" where
  "AlwaysCreate_getPartiallyFilledBlocks d partial_blocks part_ids =
     (d, partial_blocks, part_ids)"

definition AlwaysCreate_getTouchedBlocksInternal ::
  "AlwaysCreateBlockInsertDestination \<Rightarrow> block_id list" where
  "AlwaysCreate_getTouchedBlocksInternal d = returned_block_ids' d"

text \<open>
  \<^verbatim>\<open>InsertDestination::getTouchedBlocks()\<close> on an object of this class: the virtual
  call goes to the override above.
\<close>

definition AlwaysCreate_getTouchedBlocks ::
  "AlwaysCreateBlockInsertDestination \<Rightarrow> block_id list" where
  "AlwaysCreate_getTouchedBlocks d = AlwaysCreate_getTouchedBlocksInternal d"

subsection \<open>Tuples, accessors and the partition scheme\<close>

text \<open>
  \<^verbatim>\<open>TypedValue\<close> is declared elsewhere. The functions here default-construct values
  (the elements of a new \<^verbatim>\<open>PartitionValues\<close> vector) and assign values read from a
  tuple or an accessor; \<open>TypedValue_of\<close> carries the content of such a value.
\<close>

datatype TypedValue = TypedValue_default | TypedValue_of int

text \<open>\<^verbatim>\<open>Tuple\<close>: what \<^verbatim>\<open>getAttributeValue\<close> gives for each attribute id.\<close>

type_synonym Tuple = "attribute_id \<Rightarrow> TypedValue"

definition getAttributeValue :: "Tuple \<Rightarrow> attribute_id \<Rightarrow> TypedValue" where
  "getAttributeValue tuple attr = tuple attr"

text \<open>
  Modelled from the spec: the accessor type is a template parameter, of which the spec
  says that it is a forward cursor over a set of rows with \<^verbatim>\<open>next()\<close>,
  \<^verbatim>\<open>getCurrentPosition()\<close> and \<^verbatim>\<open>getTypedValue(attr_id)\<close>. The cursor is the row it
  stands on (its position and its values) and the rows still to come; \<open>next'\<close> moves to
  the first of these and answers whether there was one.
\<close>

record ValueAccessor =
  current_row :: "tuple_id \<times> Tuple"
  remaining_rows :: "(tuple_id \<times> Tuple) list"

definition next' :: "ValueAccessor \<Rightarrow> bool \<times> ValueAccessor" where
  "next' accessor =
     (case remaining_rows accessor of
        [] \<Rightarrow> (False, accessor)
      | row # rows \<Rightarrow> (True, \<lparr>current_row = row, remaining_rows = rows\<rparr>))"

definition getCurrentPosition :: "ValueAccessor \<Rightarrow> tuple_id" where
  "getCurrentPosition accessor = fst (current_row accessor)"

definition getTypedValue :: "ValueAccessor \<Rightarrow> attribute_id \<Rightarrow> TypedValue" where
  "getTypedValue accessor attr = snd (current_row accessor) attr"

text \<open>
  Modelled from the spec: \<^verbatim>\<open>TupleIdSequence\<close> is one partition's membership set over
  the accessor's rows, and \<^verbatim>\<open>set(position)\<close> adds a position to it.
\<close>

type_synonym TupleIdSequence = "tuple_id set"

definition TupleIdSequence_set :: "TupleIdSequence \<Rightarrow> tuple_id \<Rightarrow> TupleIdSequence" where
  "TupleIdSequence_set seq pos = insert pos seq"

text \<open>
  \<^verbatim>\<open>PartitionSchemeHeader\<close>: the number of partitions, the partitioning attributes
  and the virtual function \<^verbatim>\<open>getPartitionId(values)\<close> of the scheme.
\<close>

record PartitionSchemeHeader =
  num_partitions' :: nat
  partition_attribute_ids' :: "attribute_id list"
  PartitionSchemeHeader_getPartitionId :: "TypedValue list \<Rightarrow> partition_id"

definition getNumPartitions :: "PartitionSchemeHeader \<Rightarrow> nat" where
  "getNumPartitions header = num_partitions' header"

definition getPartitionAttributeIds :: "PartitionSchemeHeader \<Rightarrow> attribute_id list" where
  "getPartitionAttributeIds header = partition_attribute_ids' header"

subsection \<open>class PartitionAwareInsertDestination\<close>

text \<open>
  The vectors have one element for each partition. \<open>input_partition_id'\<close> has the
  default member initializer \<^verbatim>\<open>= 0u\<close>.
\<close>

record PartitionAwareInsertDestination = InsertDestination +
  partition_scheme_header' :: PartitionSchemeHeader
  available_block_refs' :: "MutableBlockReference list list"
  available_block_ids' :: "block_id list list"
  done_block_ids' :: "block_id list list"
  input_partition_id' :: partition_id

text \<open>
  The object when the constructor returns, as far as this header fixes it. The
  constructor is defined in \<^verbatim>\<open>InsertDestination.cpp\<close>; the base class subobject and
  the members without an initializer are arguments here. None of the constructor's
  parameters is a partition id, and \<open>input_partition_id'\<close> has the value of its default
  member initializer.
\<close>

definition PartitionAwareInsertDestination_constructed ::
  "InsertDestination \<Rightarrow> PartitionSchemeHeader \<Rightarrow> MutableBlockReference list list
     \<Rightarrow> block_id list list \<Rightarrow> block_id list list \<Rightarrow> PartitionAwareInsertDestination" where
  "PartitionAwareInsertDestination_constructed base partition_scheme_header
       available_block_refs available_block_ids done_block_ids =
     InsertDestination.extend base
       (PartitionAwareInsertDestination.fields partition_scheme_header
          available_block_refs available_block_ids done_block_ids 0)"

definition addBlockToPool ::
  "PartitionAwareInsertDestination \<Rightarrow> block_id \<Rightarrow> partition_id
     \<Rightarrow> failure + PartitionAwareInsertDestination" where
  "addBlockToPool d bid part_id =
     (if part_id < length (available_block_ids' d)
      then Inr (d\<lparr>available_block_ids' :=
                   (available_block_ids' d)[part_id := available_block_ids' d ! part_id @ [bid]]\<rparr>)
      else Inl (out_of_range ''available_block_ids_''))"

text \<open>
  The \<^verbatim>\<open>for\<close> loop of \<^verbatim>\<open>getPartiallyFilledBlocksInPartition\<close> over the references
  \<open>refs\<close> of one partition, from index \<open>i\<close>.
\<close>

function getPartiallyFilledBlocksInPartition_loop ::
  "nat \<Rightarrow> MutableBlockReference list \<Rightarrow> partition_id
     \<Rightarrow> MutableBlockReference list \<Rightarrow> partition_id list
     \<Rightarrow> MutableBlockReference list \<times> partition_id list" where
  "getPartiallyFilledBlocksInPartition_loop i refs part_id partial_blocks part_ids =
     (if i < length refs
      then getPartiallyFilledBlocksInPartition_loop (Suc i) refs part_id
             (partial_blocks @ [refs ! i]) (part_ids @ [part_id])
      else (partial_blocks, part_ids))"
  by pat_completeness auto
termination
  by (relation "measure (\<lambda>(i, refs, part_id, partial_blocks, part_ids). length refs - i)") auto

declare getPartiallyFilledBlocksInPartition_loop.simps [simp del]

definition getPartiallyFilledBlocksInPartition ::
  "PartitionAwareInsertDestination \<Rightarrow> MutableBlockReference list \<Rightarrow> partition_id list
     \<Rightarrow> partition_id
     \<Rightarrow> failure + (PartitionAwareInsertDestination \<times> MutableBlockReference list \<times> partition_id list)" where
  "getPartiallyFilledBlocksInPartition d partial_blocks part_ids part_id =
     (if part_id < length (available_block_refs' d)
      then
        let (partial_blocks_after, part_ids_after) =
              getPartiallyFilledBlocksInPartition_loop 0 (available_block_refs' d ! part_id)
                part_id partial_blocks part_ids
        in Inr (d\<lparr>available_block_refs' := (available_block_refs' d)[part_id := []]\<rparr>,
                partial_blocks_after, part_ids_after)
      else Inl (out_of_range ''available_block_refs_''))"

lemma getPartiallyFilledBlocksInPartition_header:
  "getPartiallyFilledBlocksInPartition d partial_blocks part_ids part_id = Inr (d1, r)
     \<Longrightarrow> partition_scheme_header' d1 = partition_scheme_header' d"
  unfolding getPartiallyFilledBlocksInPartition_def
  by (cases "part_id < length (available_block_refs' d)") (auto simp: split_def)

text \<open>The \<^verbatim>\<open>for\<close> loop of \<^verbatim>\<open>getPartiallyFilledBlocks\<close> over the partitions, from \<open>part_id\<close>.\<close>

function getPartiallyFilledBlocks_loop ::
  "partition_id \<Rightarrow> PartitionAwareInsertDestination \<Rightarrow> MutableBlockReference list
     \<Rightarrow> partition_id list
     \<Rightarrow> failure + (PartitionAwareInsertDestination \<times> MutableBlockReference list \<times> partition_id list)" where
  "getPartiallyFilledBlocks_loop part_id d partial_blocks part_ids =
     (if part_id < getNumPartitions (partition_scheme_header' d)
      then (case getPartiallyFilledBlocksInPartition d partial_blocks part_ids part_id of
              Inl failed \<Rightarrow> Inl failed
            | Inr (d_after, partial_blocks_after, part_ids_after) \<Rightarrow>
                getPartiallyFilledBlocks_loop (Suc part_id) d_after
                  partial_blocks_after part_ids_after)
      else Inr (d, partial_blocks, part_ids))"
  by pat_completeness auto
termination
  by (relation "measure (\<lambda>(part_id, d, partial_blocks, part_ids).
                   getNumPartitions (partition_scheme_header' d) - part_id)")
     (auto dest: getPartiallyFilledBlocksInPartition_header)

declare getPartiallyFilledBlocks_loop.simps [simp del]

definition getPartiallyFilledBlocks ::
  "PartitionAwareInsertDestination \<Rightarrow> MutableBlockReference list \<Rightarrow> partition_id list
     \<Rightarrow> failure + (PartitionAwareInsertDestination \<times> MutableBlockReference list \<times> partition_id list)" where
  "getPartiallyFilledBlocks d partial_blocks part_ids =
     getPartiallyFilledBlocks_loop 0 d partial_blocks part_ids"

definition PartitionAware_bulkInsertTuplesFromValueAccessors ::
  "PartitionAwareInsertDestination \<Rightarrow> ('acc \<times> attribute_id list) list \<Rightarrow> bool
     \<Rightarrow> failure + 'r" where
  "PartitionAware_bulkInsertTuplesFromValueAccessors d accessor_attribute_map always_mark_full =
     Inl (LOG_FATAL
       ''bulkInsertTuplesFromValueAccessors is not implemented for PartitionAwareInsertDestination'')"

definition setInputPartitionId ::
  "PartitionAwareInsertDestination \<Rightarrow> partition_id \<Rightarrow> PartitionAwareInsertDestination" where
  "setInputPartitionId d input_partition_id = d\<lparr>input_partition_id' := input_partition_id\<rparr>"

definition PartitionAware_getBlockForInsertion ::
  "PartitionAwareInsertDestination
     \<Rightarrow> failure + (MutableBlockReference \<times> PartitionAwareInsertDestination)" where
  "PartitionAware_getBlockForInsertion d =
     Inl (LOG_FATAL
       ''PartitionAwareInsertDestination::getBlockForInsertion needs a partition id as an argument.'')"

text \<open>
  The \<^verbatim>\<open>for\<close> loop that fills \<open>values\<close>, in \<^verbatim>\<open>getPartitionId\<close> from a tuple and in
  \<^verbatim>\<open>setPartitionMembership\<close> from the accessor's current row: \<open>read\<close> is
  \<^verbatim>\<open>tuple.getAttributeValue\<close> or \<^verbatim>\<open>accessor->getTypedValue\<close>.
\<close>

function values_loop ::
  "nat \<Rightarrow> attribute_id list \<Rightarrow> (attribute_id \<Rightarrow> TypedValue) \<Rightarrow> TypedValue list
     \<Rightarrow> TypedValue list" where
  "values_loop i partition_attr_ids read values =
     (if i < length partition_attr_ids
      then values_loop (Suc i) partition_attr_ids read
             (values[i := read (partition_attr_ids ! i)])
      else values)"
  by pat_completeness auto
termination
  by (relation "measure (\<lambda>(i, partition_attr_ids, read, values). length partition_attr_ids - i)")
     auto

declare values_loop.simps [simp del]

definition getPartitionId :: "PartitionAwareInsertDestination \<Rightarrow> Tuple \<Rightarrow> partition_id" where
  "getPartitionId d tuple =
     (let partition_attr_ids = getPartitionAttributeIds (partition_scheme_header' d);
          values = values_loop 0 partition_attr_ids (getAttributeValue tuple)
                     (replicate (length partition_attr_ids) TypedValue_default)
      in if values = [] then input_partition_id' d
         else PartitionSchemeHeader_getPartitionId (partition_scheme_header' d) values)"

lemma next'_shorter:
  "(True, accessor1) = next' accessor
     \<Longrightarrow> length (remaining_rows accessor1) < length (remaining_rows accessor)"
  by (cases "remaining_rows accessor") (auto simp: next'_def)

text \<open>
  \<^verbatim>\<open>setPartitionMembership\<close>, first branch: the \<^verbatim>\<open>while\<close> loop when the scheme has
  no partitioning attribute. \<^verbatim>\<open>(*partition_membership)[...]\<close> outside the vector is a
  failure.
\<close>

function setPartitionMembership_loop_input ::
  "PartitionAwareInsertDestination \<Rightarrow> TupleIdSequence list \<Rightarrow> ValueAccessor
     \<Rightarrow> failure + (TupleIdSequence list \<times> ValueAccessor)" where
  "setPartitionMembership_loop_input d partition_membership accessor =
     (case next' accessor of
        (has_next, accessor1) \<Rightarrow>
          if has_next
          then if input_partition_id' d < length partition_membership
               then setPartitionMembership_loop_input d
                      (partition_membership[input_partition_id' d :=
                         TupleIdSequence_set (partition_membership ! input_partition_id' d)
                           (getCurrentPosition accessor1)])
                      accessor1
               else Inl (out_of_range ''partition_membership'')
          else Inr (partition_membership, accessor1))"
  by pat_completeness auto
termination
  by (relation "measure (\<lambda>(d, partition_membership, accessor). length (remaining_rows accessor))")
     (auto dest: next'_shorter)

declare setPartitionMembership_loop_input.simps [simp del]

text \<open>
  Second branch: the \<^verbatim>\<open>while\<close> loop that reads the partitioning attributes of each
  row into \<open>values\<close>, a vector declared before the loop and filled again for every row.
\<close>

function setPartitionMembership_loop_values ::
  "PartitionAwareInsertDestination \<Rightarrow> attribute_id list \<Rightarrow> TypedValue list
     \<Rightarrow> TupleIdSequence list \<Rightarrow> ValueAccessor
     \<Rightarrow> failure + (TupleIdSequence list \<times> ValueAccessor)" where
  "setPartitionMembership_loop_values d partition_attr_ids values partition_membership accessor =
     (case next' accessor of
        (has_next, accessor1) \<Rightarrow>
          if has_next
          then let values1 = values_loop 0 partition_attr_ids (getTypedValue accessor1) values;
                   part_id = PartitionSchemeHeader_getPartitionId (partition_scheme_header' d) values1
               in if part_id < length partition_membership
                  then setPartitionMembership_loop_values d partition_attr_ids values1
                         (partition_membership[part_id :=
                            TupleIdSequence_set (partition_membership ! part_id)
                              (getCurrentPosition accessor1)])
                         accessor1
                  else Inl (out_of_range ''partition_membership'')
          else Inr (partition_membership, accessor1))"
  by pat_completeness auto
termination
  by (relation "measure (\<lambda>(d, partition_attr_ids, values, partition_membership, accessor).
                   length (remaining_rows accessor))")
     (auto dest: next'_shorter)

declare setPartitionMembership_loop_values.simps [simp del]

definition setPartitionMembership ::
  "PartitionAwareInsertDestination \<Rightarrow> TupleIdSequence list \<Rightarrow> ValueAccessor
     \<Rightarrow> failure + (TupleIdSequence list \<times> ValueAccessor)" where
  "setPartitionMembership d partition_membership accessor =
     (let partition_attr_ids = getPartitionAttributeIds (partition_scheme_header' d)
      in if partition_attr_ids = []
         then setPartitionMembership_loop_input d partition_membership accessor
         else setPartitionMembership_loop_values d partition_attr_ids
                (replicate (length partition_attr_ids) TypedValue_default)
                partition_membership accessor)"

subsection \<open>class BlockPoolInsertDestination\<close>

text \<open>
  The members of this class have the names of the members of
  \<^verbatim>\<open>PartitionAwareInsertDestination\<close>; the fields here carry the prefix \<open>pool_\<close>.
\<close>

record BlockPoolInsertDestination = InsertDestination +
  pool_available_block_refs' :: "MutableBlockReference list"
  pool_available_block_ids' :: "block_id list"
  pool_done_block_ids' :: "block_id list"

text \<open>
  The two constructors, both inline in the header. \<open>base\<close> is the base class subobject
  that \<^verbatim>\<open>InsertDestination::InsertDestination\<close> (in \<^verbatim>\<open>InsertDestination.cpp\<close>) leaves.
  The first constructor leaves the three vectors empty, the second moves \<open>blocks\<close> into
  \<^verbatim>\<open>available_block_ids_\<close>.
\<close>

definition BlockPoolInsertDestination_constructed ::
  "InsertDestination \<Rightarrow> BlockPoolInsertDestination" where
  "BlockPoolInsertDestination_constructed base =
     InsertDestination.extend base (BlockPoolInsertDestination.fields [] [] [])"

definition BlockPoolInsertDestination_constructed_blocks ::
  "InsertDestination \<Rightarrow> block_id list \<Rightarrow> BlockPoolInsertDestination" where
  "BlockPoolInsertDestination_constructed_blocks base blocks =
     InsertDestination.extend base (BlockPoolInsertDestination.fields [] blocks [])"

text \<open>
  Modelled from the spec: the storage manager, of which the spec lists
  \<^verbatim>\<open>createBlock(relation, layout)\<close>, which constructs a new block attached to the
  relation, and \<^verbatim>\<open>getBlockMutable(block_id)\<close>, which pins an existing block; each
  returns a writable reference or fails fatally. The state \<open>'sm\<close> of the storage manager
  is open, and the layout does not appear.
\<close>

record 'sm StorageManager =
  createBlock :: "'sm \<Rightarrow> CatalogRelationSchema \<Rightarrow> failure + (MutableBlockReference \<times> 'sm)"
  getBlockMutable :: "'sm \<Rightarrow> block_id \<Rightarrow> failure + (MutableBlockReference \<times> 'sm)"

text \<open>
  Modelled from the spec: \<^verbatim>\<open>BlockPoolInsertDestination::createNewBlock\<close> is defined in
  \<^verbatim>\<open>InsertDestination.cpp\<close>. The spec: it delegates to the storage manager's
  \<^verbatim>\<open>createBlock(relation, layout)\<close>.
\<close>

definition BlockPool_createNewBlock ::
  "'sm StorageManager \<Rightarrow> BlockPoolInsertDestination \<Rightarrow> 'sm
     \<Rightarrow> failure + (MutableBlockReference \<times> 'sm)" where
  "BlockPool_createNewBlock storage_manager d sm = createBlock storage_manager sm (relation' d)"

text \<open>
  Modelled from the spec: \<^verbatim>\<open>BlockPoolInsertDestination::getBlockForInsertion\<close> is
  defined in \<^verbatim>\<open>InsertDestination.cpp\<close>. The spec: pop from \<^verbatim>\<open>available_refs\<close> if any;
  else if \<^verbatim>\<open>available_ids\<close> is non-empty, load the last one through the storage
  manager and return the resulting reference; else create a new block. Popping takes
  the last element of the vector, and an id that was loaded leaves \<^verbatim>\<open>available_ids\<close>
  (two acquisitions from [B7, B9] return B9 then B7).
\<close>

definition BlockPool_getBlockForInsertion ::
  "'sm StorageManager \<Rightarrow> BlockPoolInsertDestination \<Rightarrow> 'sm
     \<Rightarrow> failure + (MutableBlockReference \<times> BlockPoolInsertDestination \<times> 'sm)" where
  "BlockPool_getBlockForInsertion storage_manager d sm =
     (if pool_available_block_refs' d \<noteq> []
      then Inr (last (pool_available_block_refs' d),
                d\<lparr>pool_available_block_refs' := butlast (pool_available_block_refs' d)\<rparr>,
                sm)
      else if pool_available_block_ids' d \<noteq> []
      then (case getBlockMutable storage_manager sm (last (pool_available_block_ids' d)) of
              Inl failed \<Rightarrow> Inl failed
            | Inr (block, sm_after) \<Rightarrow>
                Inr (block,
                     d\<lparr>pool_available_block_ids' := butlast (pool_available_block_ids' d)\<rparr>,
                     sm_after))
      else (case BlockPool_createNewBlock storage_manager d sm of
              Inl failed \<Rightarrow> Inl failed
            | Inr (block, sm_after) \<Rightarrow> Inr (block, d, sm_after)))"

subsection \<open>The virtual call of bulkInsertTuplesFromValueAccessors\<close>

text \<open>
  An object of one of the three classes. \<^verbatim>\<open>AlwaysCreateBlockInsertDestination\<close> and
  \<^verbatim>\<open>PartitionAwareInsertDestination\<close> override
  \<^verbatim>\<open>bulkInsertTuplesFromValueAccessors\<close>; \<^verbatim>\<open>BlockPoolInsertDestination\<close> does not,
  so the call runs \<^verbatim>\<open>InsertDestination::bulkInsertTuplesFromValueAccessors\<close>, which is
  defined in \<^verbatim>\<open>InsertDestination.cpp\<close> and is the argument \<open>InsertDestination_impl\<close>
  here, with a result of any type \<open>'r\<close>.
\<close>

datatype Destination =
    AlwaysCreate AlwaysCreateBlockInsertDestination
  | BlockPool BlockPoolInsertDestination
  | PartitionAware PartitionAwareInsertDestination

definition bulkInsertTuplesFromValueAccessors ::
  "(BlockPoolInsertDestination \<Rightarrow> ('acc \<times> attribute_id list) list \<Rightarrow> bool \<Rightarrow> failure + 'r)
     \<Rightarrow> Destination \<Rightarrow> ('acc \<times> attribute_id list) list \<Rightarrow> bool \<Rightarrow> failure + 'r" where
  "bulkInsertTuplesFromValueAccessors InsertDestination_impl destination
       accessor_attribute_map always_mark_full =
     (case destination of
        AlwaysCreate d \<Rightarrow>
          AlwaysCreate_bulkInsertTuplesFromValueAccessors d accessor_attribute_map always_mark_full
      | BlockPool d \<Rightarrow> InsertDestination_impl d accessor_attribute_map always_mark_full
      | PartitionAware d \<Rightarrow>
          PartitionAware_bulkInsertTuplesFromValueAccessors d accessor_attribute_map
            always_mark_full)"

subsection \<open>A concrete configuration\<close>

text \<open>
  Small instances of the collaborators, for evaluating the functions: a bus that accepts
  messages for client 7 only, a serializer that lists the five fields, a scheme that
  partitions by the parity of attribute 0 and one without partitioning attributes, five
  rows with the ids 0 to 4, and a storage manager that numbers new blocks from its state.
\<close>

definition example_bus :: MessageBus where
  "example_bus =
     \<lparr>Send = (\<lambda>sender_id receiver_id message. if receiver_id = 7 then kOK else kNotOK 1),
      sent = []\<rparr>"

definition example_process :: Process where
  "example_process =
     \<lparr>this_thread = 3,
      SerializeToArray = (\<lambda>proto. Some [operator_index proto, block_id proto, relation_id proto,
                                          query_id proto, partition_id proto]),
      kDataPipelineMessage = 11\<rparr>"

definition example_base :: "client_id \<Rightarrow> InsertDestination" where
  "example_base scheduler =
     \<lparr>insert_dest_type' = kPartitionAwareInsertDestination,
      thread_id_map' = (\<lambda>thread. thread + 100),
      relation' = \<lparr>id' = 5\<rparr>,
      relational_op_index' = 2,
      query_id' = 9,
      scheduler_client_id' = scheduler,
      bus' = Some example_bus\<rparr>"

definition example_header :: PartitionSchemeHeader where
  "example_header =
     \<lparr>num_partitions' = 2,
      partition_attribute_ids' = [0],
      PartitionSchemeHeader_getPartitionId =
        (\<lambda>vs. case vs of [TypedValue_of n] \<Rightarrow> nat (n mod 2) | _ \<Rightarrow> 0)\<rparr>"

definition example_header_no_attributes :: PartitionSchemeHeader where
  "example_header_no_attributes =
     \<lparr>num_partitions' = 4,
      partition_attribute_ids' = [],
      PartitionSchemeHeader_getPartitionId = (\<lambda>vs. 1)\<rparr>"

definition example_partitioned ::
  "PartitionSchemeHeader \<Rightarrow> MutableBlockReference list list \<Rightarrow> PartitionAwareInsertDestination" where
  "example_partitioned header refs =
     PartitionAwareInsertDestination_constructed (example_base 7) header refs
       (replicate (length refs) []) (replicate (length refs) [])"

definition example_rows :: "(tuple_id \<times> Tuple) list" where
  "example_rows = map (\<lambda>n. (n, \<lambda>attr. TypedValue_of (int n))) [0, 1, 2, 3, 4]"

definition example_storage_manager :: "nat StorageManager" where
  "example_storage_manager =
     \<lparr>createBlock = (\<lambda>sm relation. Inr (MutableBlockReference sm, Suc sm)),
      getBlockMutable = (\<lambda>sm bid. Inr (MutableBlockReference bid, sm))\<rparr>"

definition example_drain :: PartitionAwareInsertDestination where
  "example_drain =
     example_partitioned example_header
       [[MutableBlockReference 4], [MutableBlockReference 5, MutableBlockReference 6]]"

definition example_passthrough :: PartitionAwareInsertDestination where
  "example_passthrough = example_partitioned example_header_no_attributes [[], [], [], []]"

definition example_pool :: BlockPoolInsertDestination where
  "example_pool = BlockPoolInsertDestination_constructed_blocks (example_base 7) [7, 9]"

section \<open>Properties of the loops\<close>

lemma getPartiallyFilledBlocksInPartition_loop_eq:
  "getPartiallyFilledBlocksInPartition_loop i refs part_id partial_blocks part_ids =
     (partial_blocks @ drop i refs, part_ids @ replicate (length refs - i) part_id)"
proof (induction i refs part_id partial_blocks part_ids
       rule: getPartiallyFilledBlocksInPartition_loop.induct)
  case (1 i refs part_id partial_blocks part_ids)
  show ?case
  proof (cases "i < length refs")
    case True
    have "replicate (length refs - i) part_id = part_id # replicate (length refs - Suc i) part_id"
      using Suc_diff_Suc[OF True] by (metis replicate_Suc)
    with True "1.IH" show ?thesis
      by (subst getPartiallyFilledBlocksInPartition_loop.simps)
         (simp add: Cons_nth_drop_Suc)
  next
    case False
    then show ?thesis
      by (subst getPartiallyFilledBlocksInPartition_loop.simps) simp
  qed
qed

lemma getPartiallyFilledBlocksInPartition_eq:
  "part_id < length (available_block_refs' d) \<Longrightarrow>
   getPartiallyFilledBlocksInPartition d partial_blocks part_ids part_id =
     Inr (d\<lparr>available_block_refs' := (available_block_refs' d)[part_id := []]\<rparr>,
          partial_blocks @ available_block_refs' d ! part_id,
          part_ids @ replicate (length (available_block_refs' d ! part_id)) part_id)"
  by (simp add: getPartiallyFilledBlocksInPartition_def
      getPartiallyFilledBlocksInPartition_loop_eq)

text \<open>The outputs of the partitions from \<open>k\<close> below \<open>n\<close>.\<close>

lemma getPartiallyFilledBlocks_loop_eq:
  "n - k = m \<Longrightarrow> k \<le> n \<Longrightarrow> n = getNumPartitions (partition_scheme_header' d) \<Longrightarrow>
   n \<le> length (available_block_refs' d) \<Longrightarrow>
   getPartiallyFilledBlocks_loop k d partial_blocks part_ids =
     Inr (d\<lparr>available_block_refs' :=
             take k (available_block_refs' d) @ replicate (n - k) []
               @ drop n (available_block_refs' d)\<rparr>,
          partial_blocks @ concat (drop k (take n (available_block_refs' d))),
          part_ids @ concat (map (\<lambda>p. replicate (length (available_block_refs' d ! p)) p) [k..<n]))"
proof (induction m arbitrary: k d partial_blocks part_ids)
  case 0
  then have "k = n" by simp
  with 0 show ?case
    by (subst getPartiallyFilledBlocks_loop.simps) simp
next
  case (Suc m)
  let ?refs = "available_block_refs' d"
  let ?d1 = "d\<lparr>available_block_refs' := ?refs[k := []]\<rparr>"
  from Suc.prems have k: "k < n" "k < length ?refs" by simp_all
  have step: "getPartiallyFilledBlocks_loop k d partial_blocks part_ids =
        getPartiallyFilledBlocks_loop (Suc k) ?d1 (partial_blocks @ ?refs ! k)
          (part_ids @ replicate (length (?refs ! k)) k)"
    using k Suc.prems(3)
    by (subst getPartiallyFilledBlocks_loop.simps)
       (simp add: getPartiallyFilledBlocksInPartition_eq)
  have ih: "getPartiallyFilledBlocks_loop (Suc k) ?d1 (partial_blocks @ ?refs ! k)
          (part_ids @ replicate (length (?refs ! k)) k) =
     Inr (?d1\<lparr>available_block_refs' :=
             take (Suc k) (available_block_refs' ?d1) @ replicate (n - Suc k) []
               @ drop n (available_block_refs' ?d1)\<rparr>,
          (partial_blocks @ ?refs ! k) @ concat (drop (Suc k) (take n (available_block_refs' ?d1))),
          (part_ids @ replicate (length (?refs ! k)) k)
            @ concat (map (\<lambda>p. replicate (length (available_block_refs' ?d1 ! p)) p) [Suc k..<n]))"
    using Suc.prems k by (intro Suc.IH) simp_all
  have a: "take (Suc k) (?refs[k := []]) @ replicate (n - Suc k) [] @ drop n (?refs[k := []])
           = take k ?refs @ replicate (n - k) [] @ drop n ?refs"
  proof -
    have "take (Suc k) (?refs[k := []]) = take k ?refs @ [[]]"
      using k by (simp add: take_Suc_conv_app_nth)
    moreover have "replicate (n - k) ([]::MutableBlockReference list)
                     = [] # replicate (n - Suc k) []"
      using Suc_diff_Suc[OF k(1)] by (metis replicate_Suc)
    moreover have "drop n (?refs[k := []]) = drop n ?refs"
      using k by simp
    ultimately show ?thesis by simp
  qed
  have b: "?refs ! k @ concat (drop (Suc k) (take n (?refs[k := []])))
           = concat (drop k (take n ?refs))"
  proof -
    have "drop (Suc k) (take n (?refs[k := []])) = drop (Suc k) (take n ?refs)"
      by (simp add: take_update_swap)
    moreover have "drop k (take n ?refs) = ?refs ! k # drop (Suc k) (take n ?refs)"
      using k Suc.prems(4) by (simp add: Cons_nth_drop_Suc[symmetric])
    ultimately show ?thesis by simp
  qed
  have c: "replicate (length (?refs ! k)) k
             @ concat (map (\<lambda>p. replicate (length (?refs[k := []] ! p)) p) [Suc k..<n])
           = concat (map (\<lambda>p. replicate (length (?refs ! p)) p) [k..<n])"
  proof -
    have m: "map (\<lambda>p. replicate (length (?refs[k := []] ! p)) p) [Suc k..<n]
            = map (\<lambda>p. replicate (length (?refs ! p)) p) [Suc k..<n]"
      by (rule map_cong) simp_all
    have u: "[k..<n] = k # [Suc k..<n]"
      using k by (simp add: upt_conv_Cons)
    show ?thesis
      unfolding u m by simp
  qed
  show ?case
    unfolding step ih using a b c by simp
qed

lemma getPartiallyFilledBlocks_eq:
  assumes "getNumPartitions (partition_scheme_header' d) \<le> length (available_block_refs' d)"
  shows "getPartiallyFilledBlocks d partial_blocks part_ids =
     Inr (d\<lparr>available_block_refs' :=
             replicate (getNumPartitions (partition_scheme_header' d)) []
               @ drop (getNumPartitions (partition_scheme_header' d)) (available_block_refs' d)\<rparr>,
          partial_blocks
            @ concat (take (getNumPartitions (partition_scheme_header' d)) (available_block_refs' d)),
          part_ids
            @ concat (map (\<lambda>p. replicate (length (available_block_refs' d ! p)) p)
                        [0..<getNumPartitions (partition_scheme_header' d)]))"
  unfolding getPartiallyFilledBlocks_def
  using getPartiallyFilledBlocks_loop_eq[OF refl _ refl assms, of 0 partial_blocks part_ids]
  by simp

lemma values_loop_eq:
  "length vs = length partition_attr_ids \<Longrightarrow> i \<le> length partition_attr_ids
     \<Longrightarrow> values_loop i partition_attr_ids read vs
           = take i vs @ map read (drop i partition_attr_ids)"
proof (induction i partition_attr_ids read vs rule: values_loop.induct)
  case (1 i partition_attr_ids read vs)
  show ?case
  proof (cases "i < length partition_attr_ids")
    case True
    have "values_loop i partition_attr_ids read vs
            = values_loop (Suc i) partition_attr_ids read (vs[i := read (partition_attr_ids ! i)])"
      using True by (subst values_loop.simps) simp
    also have "\<dots> = take (Suc i) (vs[i := read (partition_attr_ids ! i)])
                      @ map read (drop (Suc i) partition_attr_ids)"
      using "1.IH"[OF True] "1.prems" True by simp
    also have "\<dots> = take i vs @ map read (drop i partition_attr_ids)"
      using True "1.prems"
      by (simp add: take_Suc_conv_app_nth Cons_nth_drop_Suc[symmetric])
    finally show ?thesis .
  next
    case False
    then have "values_loop i partition_attr_ids read vs = vs"
      by (subst values_loop.simps) simp
    with False "1.prems" show ?thesis by simp
  qed
qed

lemma values_loop_all:
  "length vs = length partition_attr_ids
     \<Longrightarrow> values_loop 0 partition_attr_ids read vs = map read partition_attr_ids"
  by (simp add: values_loop_eq)

lemma getPartitionId_eq:
  "getPartitionId d tuple =
     (if getPartitionAttributeIds (partition_scheme_header' d) = []
      then input_partition_id' d
      else PartitionSchemeHeader_getPartitionId (partition_scheme_header' d)
             (map (getAttributeValue tuple) (getPartitionAttributeIds (partition_scheme_header' d))))"
  by (simp add: getPartitionId_def Let_def values_loop_all)

text \<open>What the rows \<open>rows\<close> add to the membership sets \<open>pm\<close> when \<open>part\<close> classifies a row.\<close>

lemma membership_step:
  assumes "part row < length pm"
  shows "map (\<lambda>p. (pm[part row := insert (fst row) (pm ! part row)]) ! p
                 \<union> set (map fst (filter (\<lambda>r. part r = p) rows))) [0..<length pm]
         = map (\<lambda>p. pm ! p \<union> set (map fst (filter (\<lambda>r. part r = p) (row # rows))))
             [0..<length pm]"
  using assms by (intro map_cong refl) (auto simp: nth_list_update)

lemma setPartitionMembership_loop_input_eq:
  "remaining_rows accessor = rows \<Longrightarrow>
   rows = [] \<or> input_partition_id' d < length pm \<Longrightarrow>
   setPartitionMembership_loop_input d pm accessor =
     Inr (map (\<lambda>p. pm ! p \<union> set (map fst (filter (\<lambda>r. input_partition_id' d = p) rows)))
            [0..<length pm],
          \<lparr>current_row = last (current_row accessor # rows), remaining_rows = []\<rparr>)"
proof (induction rows arbitrary: accessor pm)
  case Nil
  then have "next' accessor = (False, accessor)" by (simp add: next'_def)
  moreover have "map (\<lambda>p. pm ! p) [0..<length pm] = pm" by (rule map_nth)
  moreover have "accessor = \<lparr>current_row = current_row accessor, remaining_rows = []\<rparr>"
    using Nil by simp
  ultimately show ?case
    by (subst setPartitionMembership_loop_input.simps) simp
next
  case (Cons row rows)
  let ?a1 = "\<lparr>current_row = row, remaining_rows = rows\<rparr>"
  let ?pm1 = "pm[input_partition_id' d := insert (fst row) (pm ! input_partition_id' d)]"
  from Cons.prems have n: "next' accessor = (True, ?a1)" by (simp add: next'_def)
  from Cons.prems have lt: "input_partition_id' d < length pm" by simp
  have "setPartitionMembership_loop_input d pm accessor
          = setPartitionMembership_loop_input d ?pm1 ?a1"
    using n lt
    by (subst setPartitionMembership_loop_input.simps)
       (simp add: TupleIdSequence_set_def getCurrentPosition_def)
  also have "\<dots> = Inr (map (\<lambda>p. ?pm1 ! p
                  \<union> set (map fst (filter (\<lambda>r. input_partition_id' d = p) rows)))
            [0..<length ?pm1],
          \<lparr>current_row = last (current_row ?a1 # rows), remaining_rows = []\<rparr>)"
    using lt by (intro Cons.IH) simp_all
  also have "\<dots> = Inr (map (\<lambda>p. pm ! p
                  \<union> set (map fst (filter (\<lambda>r. input_partition_id' d = p) (row # rows))))
            [0..<length pm],
          \<lparr>current_row = last (current_row accessor # row # rows), remaining_rows = []\<rparr>)"
    using membership_step[of "\<lambda>r. input_partition_id' d" row pm rows] lt by simp
  finally show ?case .
qed

lemma setPartitionMembership_loop_values_eq:
  "remaining_rows accessor = rows \<Longrightarrow>
   length vs = length partition_attr_ids \<Longrightarrow>
   \<forall>row \<in> set rows.
      PartitionSchemeHeader_getPartitionId (partition_scheme_header' d)
        (map (snd row) partition_attr_ids) < length pm \<Longrightarrow>
   setPartitionMembership_loop_values d partition_attr_ids vs pm accessor =
     Inr (map (\<lambda>p. pm ! p \<union> set (map fst (filter
                 (\<lambda>r. PartitionSchemeHeader_getPartitionId (partition_scheme_header' d)
                        (map (snd r) partition_attr_ids) = p) rows)))
            [0..<length pm],
          \<lparr>current_row = last (current_row accessor # rows), remaining_rows = []\<rparr>)"
proof (induction rows arbitrary: accessor pm vs)
  case Nil
  then have "next' accessor = (False, accessor)" by (simp add: next'_def)
  moreover have "map (\<lambda>p. pm ! p) [0..<length pm] = pm" by (rule map_nth)
  moreover have "accessor = \<lparr>current_row = current_row accessor, remaining_rows = []\<rparr>"
    using Nil by simp
  ultimately show ?case
    by (subst setPartitionMembership_loop_values.simps) simp
next
  case (Cons row rows)
  let ?part = "\<lambda>r. PartitionSchemeHeader_getPartitionId (partition_scheme_header' d)
                        (map (snd r) partition_attr_ids)"
  let ?a1 = "\<lparr>current_row = row, remaining_rows = rows\<rparr>"
  let ?vs1 = "map (snd row) partition_attr_ids"
  let ?pm1 = "pm[?part row := insert (fst row) (pm ! ?part row)]"
  from Cons.prems have n: "next' accessor = (True, ?a1)" by (simp add: next'_def)
  from Cons.prems have lt: "?part row < length pm" by simp
  have v: "values_loop 0 partition_attr_ids (getTypedValue ?a1) vs = ?vs1"
  proof -
    have "getTypedValue ?a1 = snd row"
      by (rule ext) (simp add: getTypedValue_def)
    with Cons.prems(2) show ?thesis by (simp add: values_loop_all)
  qed
  have "setPartitionMembership_loop_values d partition_attr_ids vs pm accessor
          = setPartitionMembership_loop_values d partition_attr_ids ?vs1 ?pm1 ?a1"
    using n lt
    by (subst setPartitionMembership_loop_values.simps)
       (simp add: v Let_def TupleIdSequence_set_def getCurrentPosition_def)
  also have "\<dots> = Inr (map (\<lambda>p. ?pm1 ! p \<union> set (map fst (filter (\<lambda>r. ?part r = p) rows)))
            [0..<length ?pm1],
          \<lparr>current_row = last (current_row ?a1 # rows), remaining_rows = []\<rparr>)"
    using Cons.prems(3) by (intro Cons.IH) simp_all
  also have "\<dots> = Inr (map (\<lambda>p. pm ! p \<union> set (map fst (filter (\<lambda>r. ?part r = p) (row # rows))))
            [0..<length pm],
          \<lparr>current_row = last (current_row accessor # row # rows), remaining_rows = []\<rparr>)"
    using membership_step[of ?part row pm rows] lt by simp
  finally show ?case .
qed

lemma setPartitionMembership_eq:
  assumes "\<forall>row \<in> set (remaining_rows accessor). getPartitionId d (snd row) < length pm"
  shows "setPartitionMembership d pm accessor =
     Inr (map (\<lambda>p. pm ! p \<union> set (map fst (filter (\<lambda>row. getPartitionId d (snd row) = p)
                                               (remaining_rows accessor))))
            [0..<length pm],
          \<lparr>current_row = last (current_row accessor # remaining_rows accessor),
           remaining_rows = []\<rparr>)"
proof (cases "getPartitionAttributeIds (partition_scheme_header' d) = []")
  case True
  then have g: "\<And>t. getPartitionId d t = input_partition_id' d"
    by (simp add: getPartitionId_eq)
  have "remaining_rows accessor = [] \<or> input_partition_id' d < length pm"
    using assms unfolding g by (cases "remaining_rows accessor") auto
  from setPartitionMembership_loop_input_eq[OF refl this] True show ?thesis
    unfolding g by (simp add: setPartitionMembership_def)
next
  case False
  then have g: "\<And>t. getPartitionId d t =
      PartitionSchemeHeader_getPartitionId (partition_scheme_header' d)
        (map t (getPartitionAttributeIds (partition_scheme_header' d)))"
    by (simp add: getPartitionId_eq getAttributeValue_def[abs_def])
  from assms have "\<forall>row \<in> set (remaining_rows accessor).
      PartitionSchemeHeader_getPartitionId (partition_scheme_header' d)
        (map (snd row) (getPartitionAttributeIds (partition_scheme_header' d))) < length pm"
    unfolding g .
  from setPartitionMembership_loop_values_eq[OF refl _ this,
      of "replicate (length (getPartitionAttributeIds (partition_scheme_header' d)))
            TypedValue_default"] False
  show ?thesis
    unfolding g by (simp add: setPartitionMembership_def Let_def)
qed

lemma getPartiallyFilledBlocks_loop_members:
  "getPartiallyFilledBlocks_loop k d partial_blocks part_ids = Inr (d2, r) \<Longrightarrow>
   partition_scheme_header' d2 = partition_scheme_header' d
   \<and> input_partition_id' d2 = input_partition_id' d"
proof (induction k d partial_blocks part_ids rule: getPartiallyFilledBlocks_loop.induct)
  case (1 part_id d partial_blocks part_ids)
  show ?case
  proof (cases "part_id < getNumPartitions (partition_scheme_header' d)")
    case False
    with "1.prems" show ?thesis
      by (subst (asm) getPartiallyFilledBlocks_loop.simps) simp
  next
    case True
    show ?thesis
    proof (cases "part_id < length (available_block_refs' d)")
      case False
      with True "1.prems" show ?thesis
        by (subst (asm) getPartiallyFilledBlocks_loop.simps)
           (simp add: getPartiallyFilledBlocksInPartition_def)
    next
      case lt: True
      let ?d1 = "d\<lparr>available_block_refs' := (available_block_refs' d)[part_id := []]\<rparr>"
      let ?pb = "partial_blocks @ available_block_refs' d ! part_id"
      let ?ids = "part_ids @ replicate (length (available_block_refs' d ! part_id)) part_id"
      note eq = getPartiallyFilledBlocksInPartition_eq[OF lt, of partial_blocks part_ids]
      from "1.prems" True have "getPartiallyFilledBlocks_loop (Suc part_id) ?d1 ?pb ?ids = Inr (d2, r)"
        by (subst (asm) getPartiallyFilledBlocks_loop.simps) (simp add: eq)
      from "1.IH"[OF True eq refl refl this] show ?thesis by simp
    qed
  qed
qed

lemma getPartitionId_members:
  "partition_scheme_header' d2 = partition_scheme_header' d \<Longrightarrow>
   input_partition_id' d2 = input_partition_id' d \<Longrightarrow>
   getPartitionId d2 tuple = getPartitionId d tuple"
  by (simp add: getPartitionId_eq)


lemma constructed_members:
  "partition_scheme_header'
     (PartitionAwareInsertDestination_constructed base header refs ids done_ids) = header"
  "available_block_refs'
     (PartitionAwareInsertDestination_constructed base header refs ids done_ids) = refs"
  "available_block_ids'
     (PartitionAwareInsertDestination_constructed base header refs ids done_ids) = ids"
  "done_block_ids'
     (PartitionAwareInsertDestination_constructed base header refs ids done_ids) = done_ids"
  "input_partition_id'
     (PartitionAwareInsertDestination_constructed base header refs ids done_ids) = 0"
  unfolding PartitionAwareInsertDestination_constructed_def
  by (cases base, simp add: InsertDestination.defs PartitionAwareInsertDestination.defs)+

lemma constructed_blocks_members:
  "pool_available_block_refs' (BlockPoolInsertDestination_constructed_blocks base blocks) = []"
  "pool_available_block_ids' (BlockPoolInsertDestination_constructed_blocks base blocks) = blocks"
  "pool_done_block_ids' (BlockPoolInsertDestination_constructed_blocks base blocks) = []"
  unfolding BlockPoolInsertDestination_constructed_blocks_def
  by (cases base, simp add: InsertDestination.defs BlockPoolInsertDestination.defs)+

lemma addBlockToPool_members:
  assumes "addBlockToPool d bid part_id = Inr d1"
  shows "partition_scheme_header' d1 = partition_scheme_header' d
             \<and> input_partition_id' d1 = input_partition_id' d"
proof (cases "part_id < length (available_block_ids' d)")
  case True
  with assms have "d1 = d\<lparr>available_block_ids' :=
                   (available_block_ids' d)[part_id := available_block_ids' d ! part_id @ [bid]]\<rparr>"
    unfolding addBlockToPool_def by simp
  then show ?thesis by simp
next
  case False
  with assms show ?thesis unfolding addBlockToPool_def by simp
qed

section \<open>The claims\<close>

text \<open>
  C1. A call of \<^verbatim>\<open>sendBlockFilledMessage(id, part_id)\<close> whose protocol buffer
  serializes and whose bus pointer is not null asks the bus for exactly one send: the
  payload is the serialized message with the five fields \<open>operator_index\<close> (the
  destination's relational operator index), \<open>block_id\<close>, \<open>relation_id\<close> (the id of the
  target relation), \<open>query_id\<close> and \<open>partition_id\<close>, the tag is
  \<^verbatim>\<open>kDataPipelineMessage\<close>, the receiver is \<open>scheduler_client_id'\<close>, and the sender
  is what the thread-id map gives for the calling thread; the function has no parameter
  for the sender. Nothing else of the destination changes.
\<close>

theorem sendBlockFilledMessage_sends:
  assumes "SerializeToArray p
             \<lparr>operator_index = relational_op_index' d, block_id = bid,
              relation_id = getID (relation' d), query_id = query_id' d,
              partition_id = part_id\<rparr> = Some proto_bytes"
    and "bus' d = Some bus"
  shows "snd (sendBlockFilledMessage p d bid part_id) =
           d\<lparr>bus' := Some (bus\<lparr>sent := sent bus @
              [(thread_id_map' d (this_thread p), scheduler_client_id' d,
                \<lparr>message_bytes = proto_bytes, message_type = kDataPipelineMessage p\<rparr>)]\<rparr>)\<rparr>"
  using assms
  by (simp add: sendBlockFilledMessage_def block_filled_proto_def SendTMBMessage_def
      getValue_def Let_def)

theorem sendBlockFilledMessage_sends_witness:
  "SerializeToArray example_process
     \<lparr>operator_index = relational_op_index' (example_base 7), block_id = 42,
      relation_id = getID (relation' (example_base 7)), query_id = query_id' (example_base 7),
      partition_id = 1\<rparr> = Some [2, 42, 5, 9, 1]
   \<and> bus' (example_base 7) = Some example_bus
   \<and> snd (sendBlockFilledMessage example_process (example_base 7) 42 1) =
       (example_base 7)\<lparr>bus' := Some (example_bus\<lparr>sent :=
          [(103, 7, \<lparr>message_bytes = [2, 42, 5, 9, 1], message_type = 11\<rparr>)]\<rparr>)\<rparr>"
proof -
  have h1: "SerializeToArray example_process
     \<lparr>operator_index = relational_op_index' (example_base 7), block_id = 42,
      relation_id = getID (relation' (example_base 7)), query_id = query_id' (example_base 7),
      partition_id = 1\<rparr> = Some [2, 42, 5, 9, 1]"
    by (simp add: example_process_def example_base_def getID_def)
  have h2: "bus' (example_base 7) = Some example_bus"
    by (simp add: example_base_def)
  have f: "thread_id_map' (example_base 7) (this_thread example_process) = 103"
    "scheduler_client_id' (example_base 7) = 7"
    "kDataPipelineMessage example_process = 11"
    "sent example_bus = []"
    by (simp_all add: example_process_def example_base_def example_bus_def)
  have "snd (sendBlockFilledMessage example_process (example_base 7) 42 1) =
       (example_base 7)\<lparr>bus' := Some (example_bus\<lparr>sent :=
          [(103, 7, \<lparr>message_bytes = [2, 42, 5, 9, 1], message_type = 11\<rparr>)]\<rparr>)\<rparr>"
    using sendBlockFilledMessage_sends[OF h1 h2] unfolding f append_Nil .
  with h1 h2 show ?thesis by (intro conjI)
qed

text \<open>
  C4. When the bus answers the send of a pipeline notification with a status other than
  \<^verbatim>\<open>kOK\<close>, the call does not return: it ends in the failed \<^verbatim>\<open>CHECK\<close> on the
  status. The function has no result in which a status could reach the caller, and the
  bus was asked once, so the send is not repeated.
\<close>

theorem sendBlockFilledMessage_not_OK_aborts:
  assumes "SerializeToArray p (block_filled_proto d bid part_id) = Some proto_bytes"
    and "bus' d = Some bus"
    and "Send bus (getValue (thread_id_map' d) p) (scheduler_client_id' d)
           \<lparr>message_bytes = proto_bytes, message_type = kDataPipelineMessage p\<rparr> \<noteq> kOK"
  shows "sendBlockFilledMessage p d bid part_id =
           (Some (CHECK_failed ''send_status == tmb::MessageBus::SendStatus::kOK''),
            d\<lparr>bus' := Some (bus\<lparr>sent := sent bus @
              [(getValue (thread_id_map' d) p, scheduler_client_id' d,
                \<lparr>message_bytes = proto_bytes, message_type = kDataPipelineMessage p\<rparr>)]\<rparr>)\<rparr>)"
  using assms
  by (simp add: sendBlockFilledMessage_def SendTMBMessage_def Let_def)

theorem sendBlockFilledMessage_not_OK_aborts_witness:
  "SerializeToArray example_process (block_filled_proto (example_base 8) 42 1)
     = Some [2, 42, 5, 9, 1]
   \<and> bus' (example_base 8) = Some example_bus
   \<and> Send example_bus (getValue (thread_id_map' (example_base 8)) example_process)
        (scheduler_client_id' (example_base 8))
        \<lparr>message_bytes = [2, 42, 5, 9, 1],
         message_type = kDataPipelineMessage example_process\<rparr> = kNotOK 1
   \<and> sendBlockFilledMessage example_process (example_base 8) 42 1 =
       (Some (CHECK_failed ''send_status == tmb::MessageBus::SendStatus::kOK''),
        (example_base 8)\<lparr>bus' := Some (example_bus\<lparr>sent :=
          [(103, 8, \<lparr>message_bytes = [2, 42, 5, 9, 1], message_type = 11\<rparr>)]\<rparr>)\<rparr>)"
proof -
  have h1: "SerializeToArray example_process (block_filled_proto (example_base 8) 42 1)
              = Some [2, 42, 5, 9, 1]"
    by (simp add: example_process_def example_base_def getID_def block_filled_proto_def)
  have h2: "bus' (example_base 8) = Some example_bus"
    by (simp add: example_base_def)
  have h3: "Send example_bus (getValue (thread_id_map' (example_base 8)) example_process)
        (scheduler_client_id' (example_base 8))
        \<lparr>message_bytes = [2, 42, 5, 9, 1],
         message_type = kDataPipelineMessage example_process\<rparr> = kNotOK 1"
    by (simp add: example_base_def example_bus_def)
  have h3': "Send example_bus (getValue (thread_id_map' (example_base 8)) example_process)
        (scheduler_client_id' (example_base 8))
        \<lparr>message_bytes = [2, 42, 5, 9, 1],
         message_type = kDataPipelineMessage example_process\<rparr> \<noteq> kOK"
    unfolding h3 by simp
  have f: "getValue (thread_id_map' (example_base 8)) example_process = 103"
    "scheduler_client_id' (example_base 8) = 8"
    "kDataPipelineMessage example_process = 11"
    "sent example_bus = []"
    by (simp_all add: example_process_def example_base_def example_bus_def getValue_def)
  have "sendBlockFilledMessage example_process (example_base 8) 42 1 =
       (Some (CHECK_failed ''send_status == tmb::MessageBus::SendStatus::kOK''),
        (example_base 8)\<lparr>bus' := Some (example_bus\<lparr>sent :=
          [(103, 8, \<lparr>message_bytes = [2, 42, 5, 9, 1], message_type = 11\<rparr>)]\<rparr>)\<rparr>)"
    using sendBlockFilledMessage_not_OK_aborts[OF h1 h2 h3'] unfolding f append_Nil .
  with h1 h2 h3 show ?thesis unfolding f by (intro conjI)
qed

text \<open>
  C2. \<^verbatim>\<open>getPartitionId(tuple)\<close> is the scheme header's \<^verbatim>\<open>getPartitionId\<close> of the
  tuple's values at the partitioning attributes when the attribute list is not empty,
  and the cached \<open>input_partition_id'\<close> when it is empty; \<^verbatim>\<open>setInputPartitionId\<close> sets
  that cache. \<^verbatim>\<open>setPartitionMembership\<close> classifies by the same rule: if every row of
  the accessor has its partition inside the vector of membership sets, the call returns,
  and the set of each partition \<open>p\<close> has gained the positions of exactly the rows whose
  partition is \<open>p\<close>.
\<close>

theorem partition_routing:
  "getPartitionId d tuple =
     (if getPartitionAttributeIds (partition_scheme_header' d) = []
      then input_partition_id' d
      else PartitionSchemeHeader_getPartitionId (partition_scheme_header' d)
             (map (getAttributeValue tuple) (getPartitionAttributeIds (partition_scheme_header' d))))
   \<and> input_partition_id' (setInputPartitionId d input_partition_id) = input_partition_id
   \<and> ((\<forall>row \<in> set (remaining_rows accessor).
          getPartitionId d (snd row) < length partition_membership) \<longrightarrow>
        setPartitionMembership d partition_membership accessor =
          Inr (map (\<lambda>p. partition_membership ! p
                        \<union> set (map fst (filter (\<lambda>row. getPartitionId d (snd row) = p)
                                           (remaining_rows accessor))))
                 [0..<length partition_membership],
               \<lparr>current_row = last (current_row accessor # remaining_rows accessor),
                remaining_rows = []\<rparr>))"
proof (intro conjI impI)
  show "getPartitionId d tuple =
     (if getPartitionAttributeIds (partition_scheme_header' d) = []
      then input_partition_id' d
      else PartitionSchemeHeader_getPartitionId (partition_scheme_header' d)
             (map (getAttributeValue tuple) (getPartitionAttributeIds (partition_scheme_header' d))))"
    by (rule getPartitionId_eq)
next
  show "input_partition_id' (setInputPartitionId d input_partition_id) = input_partition_id"
    unfolding setInputPartitionId_def by simp
next
  assume "\<forall>row \<in> set (remaining_rows accessor).
          getPartitionId d (snd row) < length partition_membership"
  then show "setPartitionMembership d partition_membership accessor =
          Inr (map (\<lambda>p. partition_membership ! p
                        \<union> set (map fst (filter (\<lambda>row. getPartitionId d (snd row) = p)
                                           (remaining_rows accessor))))
                 [0..<length partition_membership],
               \<lparr>current_row = last (current_row accessor # remaining_rows accessor),
                remaining_rows = []\<rparr>)"
    by (rule setPartitionMembership_eq)
qed

text \<open>
  The rows with the ids 0 to 4 under partitioning by \<open>id mod 2\<close>: partition 0 receives
  the rows 0, 2 and 4, partition 1 the rows 1 and 3.
\<close>

theorem partition_routing_witness:
  "list_all
     (\<lambda>row. getPartitionId (example_partitioned example_header [[], []]) (snd row)
              < length [{}, {}::tuple_id set])
     example_rows
   \<and> getPartitionId (example_partitioned example_header [[], []]) (\<lambda>attr. TypedValue_of 3) = 1
   \<and> map_sum id fst
        (setPartitionMembership (example_partitioned example_header [[], []]) [{}, {}]
           \<lparr>current_row = (0, \<lambda>attr. TypedValue_default), remaining_rows = example_rows\<rparr>)
       = Inr [{0, 2, 4}, {1, 3}]"
proof -
  let ?d = "example_partitioned example_header [[], []]"
  let ?a = "\<lparr>current_row = (0, \<lambda>attr. TypedValue_default), remaining_rows = example_rows\<rparr>"
  note inst = partition_routing[where d = ?d and tuple = "\<lambda>attr. TypedValue_of 3"
      and input_partition_id = 0 and accessor = ?a and partition_membership = "[{}, {}]"]
  have hdr: "partition_scheme_header' ?d = example_header"
    by (simp add: example_partitioned_def constructed_members)
  have ids: "getPartitionAttributeIds example_header = [0]"
    by (simp add: example_header_def getPartitionAttributeIds_def)
  have part: "\<And>n. getPartitionId ?d (\<lambda>attr. TypedValue_of n) = nat (n mod 2)"
    unfolding getPartitionId_eq hdr ids
    by (simp add: example_header_def getAttributeValue_def)
  have rows: "example_rows =
      [(0, \<lambda>attr. TypedValue_of 0), (1, \<lambda>attr. TypedValue_of 1), (2, \<lambda>attr. TypedValue_of 2),
       (3, \<lambda>attr. TypedValue_of 3), (4, \<lambda>attr. TypedValue_of 4)]"
    by (simp add: example_rows_def)
  have h: "\<forall>row \<in> set (remaining_rows ?a). getPartitionId ?d (snd row) < length [{}, {}::nat set]"
    by (simp add: rows part)
  have u: "[0..<length [{}, {}::nat set]] = [0, Suc 0]"
    by (simp add: upt_rec)
  have sets: "map (\<lambda>p. [{}, {}] ! p
                        \<union> set (map fst (filter (\<lambda>row. getPartitionId ?d (snd row) = p)
                                           (remaining_rows ?a))))
                 [0..<length [{}, {}::nat set]] = [{0, 2, 4}, {1, 3}]"
    unfolding u by (simp add: rows part)
  have "getPartitionId ?d (\<lambda>attr. TypedValue_of 3) =
          PartitionSchemeHeader_getPartitionId example_header [TypedValue_of 3]"
    using inst[THEN conjunct1] unfolding hdr ids by (simp add: getAttributeValue_def)
  then have one: "getPartitionId ?d (\<lambda>attr. TypedValue_of 3) = 1"
    by (simp add: example_header_def)
  have "setPartitionMembership ?d [{}, {}] ?a =
          Inr (map (\<lambda>p. [{}, {}] ! p
                        \<union> set (map fst (filter (\<lambda>row. getPartitionId ?d (snd row) = p)
                                           (remaining_rows ?a))))
                 [0..<length [{}, {}::nat set]],
               \<lparr>current_row = last (current_row ?a # remaining_rows ?a),
                remaining_rows = []\<rparr>)"
    by (rule inst[THEN conjunct2, THEN conjunct2, THEN mp, OF h])
  then have two: "map_sum id fst (setPartitionMembership ?d [{}, {}] ?a) = Inr [{0, 2, 4}, {1, 3}]"
    unfolding sets by simp
  have three: "list_all (\<lambda>row. getPartitionId ?d (snd row) < length [{}, {}::nat set])
                 example_rows"
    using h unfolding list_all_iff by simp
  from three one two show ?thesis by (intro conjI)
qed

text \<open>
  C3. For a destination whose vector of retained references has an element for each of
  the \<open>P\<close> partitions of the scheme, \<^verbatim>\<open>getPartiallyFilledBlocks\<close> returns; it has
  appended to \<open>partial_blocks\<close> the references of partition 0, then those of partition
  1, and so on to partition \<open>P - 1\<close>, each partition's in their stored order, and to
  \<open>part_ids\<close> the id of the partition once for each of these references. The retained
  references of these partitions are cleared.
\<close>

theorem getPartiallyFilledBlocks_order:
  assumes "getNumPartitions (partition_scheme_header' d) \<le> length (available_block_refs' d)"
  shows "getPartiallyFilledBlocks d partial_blocks part_ids =
     Inr (d\<lparr>available_block_refs' :=
             replicate (getNumPartitions (partition_scheme_header' d)) []
               @ drop (getNumPartitions (partition_scheme_header' d)) (available_block_refs' d)\<rparr>,
          partial_blocks
            @ concat (take (getNumPartitions (partition_scheme_header' d)) (available_block_refs' d)),
          part_ids
            @ concat (map (\<lambda>p. replicate (length (available_block_refs' d ! p)) p)
                        [0..<getNumPartitions (partition_scheme_header' d)]))"
  using assms by (rule getPartiallyFilledBlocks_eq)

theorem getPartiallyFilledBlocks_order_witness:
  "getNumPartitions (partition_scheme_header' example_drain)
     \<le> length (available_block_refs' example_drain)
   \<and> getPartiallyFilledBlocks example_drain [] [] =
       Inr (example_drain\<lparr>available_block_refs' := [[], []]\<rparr>,
            [MutableBlockReference 4, MutableBlockReference 5, MutableBlockReference 6],
            [0, 1, 1])"
proof -
  have n: "getNumPartitions (partition_scheme_header' example_drain) = 2"
    by (simp add: example_drain_def example_partitioned_def constructed_members
        example_header_def getNumPartitions_def)
  have r: "available_block_refs' example_drain =
             [[MutableBlockReference 4], [MutableBlockReference 5, MutableBlockReference 6]]"
    by (simp add: example_drain_def example_partitioned_def constructed_members)
  have h: "getNumPartitions (partition_scheme_header' example_drain)
             \<le> length (available_block_refs' example_drain)"
    unfolding n r by simp
  have u: "[0..<2] = [0, Suc 0]" "replicate 2 [] = [[], []::MutableBlockReference list]"
    by (simp_all add: upt_rec numeral_2_eq_2)
  have "getPartiallyFilledBlocks example_drain [] [] =
       Inr (example_drain\<lparr>available_block_refs' := [[], []]\<rparr>,
            [MutableBlockReference 4, MutableBlockReference 5, MutableBlockReference 6],
            [0, 1, 1])"
    using getPartiallyFilledBlocks_order[OF h, of "[]" "[]"] unfolding n r u by simp
  with h show ?thesis by (intro conjI)
qed

text \<open>
  C6. A second call of \<^verbatim>\<open>getPartiallyFilledBlocks\<close>, nothing having happened since
  the first, returns and appends nothing to the two vectors it is given. For
  \<^verbatim>\<open>AlwaysCreateBlockInsertDestination\<close> this holds of every call; for
  \<^verbatim>\<open>PartitionAwareInsertDestination\<close> (with an element of retained references for each
  partition of the scheme) the first call returns and leaves a destination on which
  the second call changes nothing.
\<close>

theorem getPartiallyFilledBlocks_second_call:
  "AlwaysCreate_getPartiallyFilledBlocks
      (fst (AlwaysCreate_getPartiallyFilledBlocks a partial_blocks part_ids))
      partial_blocks2 part_ids2 = (a, partial_blocks2, part_ids2)
   \<and> (getNumPartitions (partition_scheme_header' d) \<le> length (available_block_refs' d) \<longrightarrow>
        (\<exists>d1 partial_blocks1 part_ids1.
           getPartiallyFilledBlocks d partial_blocks part_ids = Inr (d1, partial_blocks1, part_ids1)
           \<and> getPartiallyFilledBlocks d1 partial_blocks2 part_ids2
               = Inr (d1, partial_blocks2, part_ids2)))"
proof (intro conjI impI)
  show "AlwaysCreate_getPartiallyFilledBlocks
      (fst (AlwaysCreate_getPartiallyFilledBlocks a partial_blocks part_ids))
      partial_blocks2 part_ids2 = (a, partial_blocks2, part_ids2)"
    by (simp add: AlwaysCreate_getPartiallyFilledBlocks_def)
next
  let ?n = "getNumPartitions (partition_scheme_header' d)"
  let ?refs = "available_block_refs' d"
  let ?d1 = "d\<lparr>available_block_refs' := replicate ?n [] @ drop ?n ?refs\<rparr>"
  assume le: "?n \<le> length ?refs"
  have first: "getPartiallyFilledBlocks d partial_blocks part_ids =
      Inr (?d1, partial_blocks @ concat (take ?n ?refs),
           part_ids @ concat (map (\<lambda>p. replicate (length (?refs ! p)) p) [0..<?n]))"
    by (rule getPartiallyFilledBlocks_eq[OF le])
  have n1: "getNumPartitions (partition_scheme_header' ?d1) = ?n" by simp
  have r1: "available_block_refs' ?d1 = replicate ?n [] @ drop ?n ?refs" by simp
  have le1: "getNumPartitions (partition_scheme_header' ?d1) \<le> length (available_block_refs' ?d1)"
    using le by simp
  have empty: "concat (map (\<lambda>p. replicate (length ((replicate ?n [] @ drop ?n ?refs) ! p)) p)
                  [0..<?n]) = ([]::partition_id list)"
    by (simp add: nth_append)
  have second: "getPartiallyFilledBlocks ?d1 partial_blocks2 part_ids2
                  = Inr (?d1, partial_blocks2, part_ids2)"
    unfolding getPartiallyFilledBlocks_eq[OF le1] n1 r1 using empty by simp
  from first second
  show "\<exists>d1 partial_blocks1 part_ids1.
           getPartiallyFilledBlocks d partial_blocks part_ids = Inr (d1, partial_blocks1, part_ids1)
           \<and> getPartiallyFilledBlocks d1 partial_blocks2 part_ids2
               = Inr (d1, partial_blocks2, part_ids2)"
    by blast
qed

theorem getPartiallyFilledBlocks_second_call_witness:
  "getNumPartitions (partition_scheme_header' example_drain)
     \<le> length (available_block_refs' example_drain)
   \<and> (\<exists>d1. getPartiallyFilledBlocks example_drain [] [] =
              Inr (d1, [MutableBlockReference 4, MutableBlockReference 5, MutableBlockReference 6],
                   [0, 1, 1])
           \<and> getPartiallyFilledBlocks d1
                [MutableBlockReference 4, MutableBlockReference 5, MutableBlockReference 6]
                [0, 1, 1] =
              Inr (d1, [MutableBlockReference 4, MutableBlockReference 5, MutableBlockReference 6],
                   [0, 1, 1]))"
proof -
  let ?out = "[MutableBlockReference 4, MutableBlockReference 5, MutableBlockReference 6]"
  have n: "getNumPartitions (partition_scheme_header' example_drain) = 2"
    by (simp add: example_drain_def example_partitioned_def constructed_members
        example_header_def getNumPartitions_def)
  have r: "available_block_refs' example_drain =
             [[MutableBlockReference 4], [MutableBlockReference 5, MutableBlockReference 6]]"
    by (simp add: example_drain_def example_partitioned_def constructed_members)
  have h: "getNumPartitions (partition_scheme_header' example_drain)
             \<le> length (available_block_refs' example_drain)"
    unfolding n r by simp
  have u: "[0..<2] = [0, Suc 0]" "replicate 2 [] = [[], []::MutableBlockReference list]"
    by (simp_all add: upt_rec numeral_2_eq_2)
  have first: "getPartiallyFilledBlocks example_drain [] [] =
       Inr (example_drain\<lparr>available_block_refs' := [[], []]\<rparr>, ?out, [0, 1, 1])"
    using getPartiallyFilledBlocks_eq[OF h, of "[]" "[]"] unfolding n r u by simp
  from getPartiallyFilledBlocks_second_call[where d = example_drain and partial_blocks = "[]"
      and part_ids = "[]" and ?partial_blocks2.0 = ?out and ?part_ids2.0 = "[0, 1, 1]"] h
  obtain d1 partial_blocks1 part_ids1 where
    "getPartiallyFilledBlocks example_drain [] [] = Inr (d1, partial_blocks1, part_ids1)"
    and second: "getPartiallyFilledBlocks d1 ?out [0, 1, 1] = Inr (d1, ?out, [0, 1, 1])"
    by blast
  with first have "d1 = example_drain\<lparr>available_block_refs' := [[], []]\<rparr>" by simp
  with first second h show ?thesis by blast
qed

text \<open>
  C7. \<^verbatim>\<open>bulkInsertTuplesFromValueAccessors\<close> on an
  \<^verbatim>\<open>AlwaysCreateBlockInsertDestination\<close> or a \<^verbatim>\<open>PartitionAwareInsertDestination\<close> ends
  in \<^verbatim>\<open>LOG(FATAL)\<close>, whatever the arguments. \<^verbatim>\<open>BlockPoolInsertDestination\<close> has no
  such override: there the call runs the implementation of the base class.
\<close>

theorem bulkInsertTuplesFromValueAccessors_fatal:
  "bulkInsertTuplesFromValueAccessors InsertDestination_impl (AlwaysCreate a)
       accessor_attribute_map always_mark_full =
     Inl (LOG_FATAL
       ''bulkInsertTuplesFromValueAccessors is not implemented for AlwaysCreateBlockInsertDestination'')
   \<and> bulkInsertTuplesFromValueAccessors InsertDestination_impl (PartitionAware b)
       accessor_attribute_map always_mark_full =
     Inl (LOG_FATAL
       ''bulkInsertTuplesFromValueAccessors is not implemented for PartitionAwareInsertDestination'')
   \<and> bulkInsertTuplesFromValueAccessors InsertDestination_impl (BlockPool c)
       accessor_attribute_map always_mark_full =
     InsertDestination_impl c accessor_attribute_map always_mark_full"
  by (simp add: bulkInsertTuplesFromValueAccessors_def
      AlwaysCreate_bulkInsertTuplesFromValueAccessors_def
      PartitionAware_bulkInsertTuplesFromValueAccessors_def)

text \<open>
  C8. \<^verbatim>\<open>getBlockForInsertion()\<close> without a partition id on a
  \<^verbatim>\<open>PartitionAwareInsertDestination\<close> ends in \<^verbatim>\<open>LOG(FATAL)\<close>, with a message that
  asks for a partition id as an argument.
\<close>

theorem PartitionAware_getBlockForInsertion_fatal:
  "PartitionAware_getBlockForInsertion d =
     Inl (LOG_FATAL
       ''PartitionAwareInsertDestination::getBlockForInsertion needs a partition id as an argument.'')"
  by (simp add: PartitionAware_getBlockForInsertion_def)

text \<open>
  C9. On an \<^verbatim>\<open>AlwaysCreateBlockInsertDestination\<close>, \<^verbatim>\<open>getPartiallyFilledBlocks\<close>
  leaves both output vectors and the destination as they are, and
  \<^verbatim>\<open>getTouchedBlocks\<close> returns the sequence \<open>returned_block_ids'\<close>, in its order.
\<close>

theorem AlwaysCreate_drain_and_touched:
  "AlwaysCreate_getPartiallyFilledBlocks d partial_blocks part_ids = (d, partial_blocks, part_ids)
   \<and> AlwaysCreate_getTouchedBlocks d = returned_block_ids' d"
  by (simp add: AlwaysCreate_getPartiallyFilledBlocks_def AlwaysCreate_getTouchedBlocks_def
      AlwaysCreate_getTouchedBlocksInternal_def)

text \<open>
  C5. \<^verbatim>\<open>BlockPoolInsertDestination::getBlockForInsertion\<close>: with a retained reference,
  the call pops one and does not touch the storage manager; with none and a pre-existing
  id, it loads the last id of \<^verbatim>\<open>available_block_ids_\<close> through the storage manager,
  removes the id and returns the reference; only with neither does it create a block.
  A destination constructed with a list of block ids starts with no reference and with
  that list.
\<close>

theorem BlockPool_getBlockForInsertion_order:
  "(pool_available_block_refs' d \<noteq> [] \<longrightarrow>
      BlockPool_getBlockForInsertion storage_manager d sm =
        Inr (last (pool_available_block_refs' d),
             d\<lparr>pool_available_block_refs' := butlast (pool_available_block_refs' d)\<rparr>, sm))
   \<and> (pool_available_block_refs' d = [] \<and> pool_available_block_ids' d \<noteq> [] \<longrightarrow>
      BlockPool_getBlockForInsertion storage_manager d sm =
        (case getBlockMutable storage_manager sm (last (pool_available_block_ids' d)) of
           Inl failed \<Rightarrow> Inl failed
         | Inr (block, sm_after) \<Rightarrow>
             Inr (block, d\<lparr>pool_available_block_ids' := butlast (pool_available_block_ids' d)\<rparr>,
                  sm_after)))
   \<and> (pool_available_block_refs' d = [] \<and> pool_available_block_ids' d = [] \<longrightarrow>
      BlockPool_getBlockForInsertion storage_manager d sm =
        (case createBlock storage_manager sm (relation' d) of
           Inl failed \<Rightarrow> Inl failed
         | Inr (block, sm_after) \<Rightarrow> Inr (block, d, sm_after)))
   \<and> pool_available_block_refs' (BlockPoolInsertDestination_constructed_blocks base blocks) = []
   \<and> pool_available_block_ids' (BlockPoolInsertDestination_constructed_blocks base blocks) = blocks"
  by (simp add: BlockPool_getBlockForInsertion_def BlockPool_createNewBlock_def
      constructed_blocks_members)

text \<open>
  A destination constructed with the ids 7 and 9: the first acquisition returns block
  9, the second block 7, and the third creates a block.
\<close>

theorem BlockPool_getBlockForInsertion_order_witness:
  "pool_available_block_refs' example_pool = []
   \<and> pool_available_block_ids' example_pool = [7, 9]
   \<and> BlockPool_getBlockForInsertion example_storage_manager example_pool 100 =
       Inr (MutableBlockReference 9, example_pool\<lparr>pool_available_block_ids' := [7]\<rparr>, 100)
   \<and> BlockPool_getBlockForInsertion example_storage_manager
        (example_pool\<lparr>pool_available_block_ids' := [7]\<rparr>) 100 =
       Inr (MutableBlockReference 7, example_pool\<lparr>pool_available_block_ids' := []\<rparr>, 100)
   \<and> BlockPool_getBlockForInsertion example_storage_manager
        (example_pool\<lparr>pool_available_block_ids' := []\<rparr>) 100 =
       Inr (MutableBlockReference 100, example_pool\<lparr>pool_available_block_ids' := []\<rparr>, 101)
   \<and> BlockPool_getBlockForInsertion example_storage_manager
        (example_pool\<lparr>pool_available_block_refs' :=
           [MutableBlockReference 3, MutableBlockReference 4]\<rparr>) 100 =
       Inr (MutableBlockReference 4,
            example_pool\<lparr>pool_available_block_refs' := [MutableBlockReference 3]\<rparr>, 100)"
proof -
  have c: "pool_available_block_refs' example_pool = []"
          "pool_available_block_ids' example_pool = [7, 9]"
    by (simp_all add: example_pool_def constructed_blocks_members)
  have s: "getBlockMutable example_storage_manager = (\<lambda>sm bid. Inr (MutableBlockReference bid, sm))"
          "createBlock example_storage_manager = (\<lambda>sm relation. Inr (MutableBlockReference sm, Suc sm))"
    by (simp_all add: example_storage_manager_def)
  have "BlockPool_getBlockForInsertion example_storage_manager example_pool 100 =
       Inr (MutableBlockReference 9, example_pool\<lparr>pool_available_block_ids' := [7]\<rparr>, 100)"
    using BlockPool_getBlockForInsertion_order[where d = example_pool
        and storage_manager = example_storage_manager and sm = 100] c s
    by simp
  moreover
  have "BlockPool_getBlockForInsertion example_storage_manager
        (example_pool\<lparr>pool_available_block_ids' := [7]\<rparr>) 100 =
       Inr (MutableBlockReference 7, example_pool\<lparr>pool_available_block_ids' := []\<rparr>, 100)"
    using BlockPool_getBlockForInsertion_order[where
        d = "example_pool\<lparr>pool_available_block_ids' := [7]\<rparr>"
        and storage_manager = example_storage_manager and sm = 100] c s
    by simp
  moreover
  have "BlockPool_getBlockForInsertion example_storage_manager
        (example_pool\<lparr>pool_available_block_ids' := []\<rparr>) 100 =
       Inr (MutableBlockReference 100, example_pool\<lparr>pool_available_block_ids' := []\<rparr>, 101)"
    using BlockPool_getBlockForInsertion_order[where
        d = "example_pool\<lparr>pool_available_block_ids' := []\<rparr>"
        and storage_manager = example_storage_manager and sm = 100] c s
    by simp
  moreover
  have "BlockPool_getBlockForInsertion example_storage_manager
        (example_pool\<lparr>pool_available_block_refs' :=
           [MutableBlockReference 3, MutableBlockReference 4]\<rparr>) 100 =
       Inr (MutableBlockReference 4,
            example_pool\<lparr>pool_available_block_refs' := [MutableBlockReference 3]\<rparr>, 100)"
    using BlockPool_getBlockForInsertion_order[where
        d = "example_pool\<lparr>pool_available_block_refs' :=
               [MutableBlockReference 3, MutableBlockReference 4]\<rparr>"
        and storage_manager = example_storage_manager and sm = 100]
    by simp
  ultimately show ?thesis using c by blast
qed

text \<open>
  C10. A \<^verbatim>\<open>PartitionAwareInsertDestination\<close> whose scheme has no partitioning attribute
  routes every tuple to partition 0 when it has been constructed and
  \<^verbatim>\<open>setInputPartitionId\<close> has not been called: the cache starts at 0, and neither
  \<^verbatim>\<open>addBlockToPool\<close> nor \<^verbatim>\<open>getPartiallyFilledBlocks\<close>, the other functions of this
  header that change the object, changes where a tuple goes.
\<close>

theorem input_partition_id_default:
  "(getPartitionAttributeIds header = [] \<longrightarrow>
      getPartitionId
        (PartitionAwareInsertDestination_constructed base header refs ids done_ids) tuple = 0)
   \<and> (addBlockToPool d bid part_id = Inr d1 \<longrightarrow> getPartitionId d1 tuple = getPartitionId d tuple)
   \<and> (getPartiallyFilledBlocks d partial_blocks part_ids = Inr (d2, r) \<longrightarrow>
        getPartitionId d2 tuple = getPartitionId d tuple)"
proof (intro conjI impI)
  assume "getPartitionAttributeIds header = []"
  then show "getPartitionId
        (PartitionAwareInsertDestination_constructed base header refs ids done_ids) tuple = 0"
    by (simp add: getPartitionId_eq constructed_members)
next
  assume "addBlockToPool d bid part_id = Inr d1"
  then have "partition_scheme_header' d1 = partition_scheme_header' d
             \<and> input_partition_id' d1 = input_partition_id' d"
    by (rule addBlockToPool_members)
  then show "getPartitionId d1 tuple = getPartitionId d tuple"
    by (intro getPartitionId_members) simp_all
next
  assume "getPartiallyFilledBlocks d partial_blocks part_ids = Inr (d2, r)"
  then have "partition_scheme_header' d2 = partition_scheme_header' d
             \<and> input_partition_id' d2 = input_partition_id' d"
    unfolding getPartiallyFilledBlocks_def by (rule getPartiallyFilledBlocks_loop_members)
  then show "getPartitionId d2 tuple = getPartitionId d tuple"
    by (intro getPartitionId_members) simp_all
qed

theorem input_partition_id_default_witness:
  "getPartitionAttributeIds example_header_no_attributes = []
   \<and> getPartitionId example_passthrough (\<lambda>attr. TypedValue_of 7) = 0
   \<and> addBlockToPool example_passthrough 3 2 =
       Inr (example_passthrough\<lparr>available_block_ids' := [[], [], [3], []]\<rparr>)
   \<and> getPartitionId (example_passthrough\<lparr>available_block_ids' := [[], [], [3], []]\<rparr>)
        (\<lambda>attr. TypedValue_of 7) = 0
   \<and> getPartiallyFilledBlocks example_passthrough [] [] =
       Inr (example_passthrough\<lparr>available_block_refs' := [[], [], [], []]\<rparr>, [], [])
   \<and> getPartitionId (example_passthrough\<lparr>available_block_refs' := [[], [], [], []]\<rparr>)
        (\<lambda>attr. TypedValue_of 7) = 0"
proof -
  let ?t = "\<lambda>attr::attribute_id. TypedValue_of 7"
  let ?d1 = "example_passthrough\<lparr>available_block_ids' := [[], [], [3], []]\<rparr>"
  let ?d2 = "example_passthrough\<lparr>available_block_refs' := [[], [], [], []]\<rparr>"
  have e: "example_passthrough =
      PartitionAwareInsertDestination_constructed (example_base 7) example_header_no_attributes
        [[], [], [], []] [[], [], [], []] [[], [], [], []]"
    unfolding example_passthrough_def example_partitioned_def by (simp add: numeral_eq_Suc)
  have h1: "getPartitionAttributeIds example_header_no_attributes = []"
    by (simp add: example_header_no_attributes_def getPartitionAttributeIds_def)
  have ids: "available_block_ids' example_passthrough = [[], [], [], []]"
    unfolding e by (rule constructed_members)
  have r: "available_block_refs' example_passthrough = [[], [], [], []]"
    unfolding e by (rule constructed_members)
  have hdr: "partition_scheme_header' example_passthrough = example_header_no_attributes"
    unfolding e by (rule constructed_members)
  have n: "getNumPartitions (partition_scheme_header' example_passthrough) = 4"
    unfolding hdr by (simp add: example_header_no_attributes_def getNumPartitions_def)
  have "(2::nat) < length [[], [], [], []::block_id list]" by simp
  moreover have "[[], [], [], []::block_id list][2 := [[], [], [], []] ! 2 @ [3]]
                   = [[], [], [3], []]"
    by (simp add: numeral_2_eq_2)
  ultimately have h2: "addBlockToPool example_passthrough 3 2 = Inr ?d1"
    unfolding addBlockToPool_def ids by simp
  have le: "getNumPartitions (partition_scheme_header' example_passthrough)
              \<le> length (available_block_refs' example_passthrough)"
    unfolding n r by simp
  have u: "replicate 4 [] = [[], [], [], []::MutableBlockReference list]"
    "[0..<4] = [0, 1, 2, 3]"
    by (simp_all add: numeral_eq_Suc upt_rec)
  have h3: "getPartiallyFilledBlocks example_passthrough [] [] = Inr (?d2, [], [])"
    using getPartiallyFilledBlocks_eq[OF le, of "[]" "[]"] unfolding n r u by simp
  note inst = input_partition_id_default[where header = example_header_no_attributes
      and tuple = ?t and base = "example_base 7" and refs = "[[], [], [], []]"
      and ids = "[[], [], [], []]" and done_ids = "[[], [], [], []]"
      and d = example_passthrough and bid = 3 and part_id = 2 and ?d1.0 = ?d1
      and partial_blocks = "[]" and part_ids = "[]" and ?d2.0 = ?d2 and r = "([], [])",
      folded e]
  from inst h1 have g0: "getPartitionId example_passthrough ?t = 0" by blast
  from inst h2 have "getPartitionId ?d1 ?t = getPartitionId example_passthrough ?t" by blast
  with g0 have g1: "getPartitionId ?d1 ?t = 0" by simp
  from inst h3 have "getPartitionId ?d2 ?t = getPartitionId example_passthrough ?t" by blast
  with g0 have g2: "getPartitionId ?d2 ?t = 0" by simp
  from h1 g0 h2 g1 h3 g2 show ?thesis by (intro conjI)
qed

end
